theory Spec2Isabelle
  imports Main "HOL-Library.Signed_Division" "HOL-Library.Word"
begin

section \<open>Go primitives the benchmark relies on\<close>

text \<open>
  Go's \<open>int\<close> is a 64-bit two's complement integer on the usual targets. The model keeps
  integers as \<open>int\<close> and writes the wrap-around out where a product is formed.
  Division \<open>/\<close> and remainder \<open>%\<close> truncate towards zero (\<open>sdiv\<close>, \<open>smod\<close>).
\<close>

definition wrap64 :: "int \<Rightarrow> int" where
  "wrap64 x = (x + 2 ^ 63) mod 2 ^ 64 - 2 ^ 63"

text \<open>The conversion \<open>byte(x)\<close> keeps the low eight bits.\<close>

definition byte_of_int :: "int \<Rightarrow> 8 word" where
  "byte_of_int x = word_of_int x"

text \<open>
  A Go string is a sequence of bytes. The conversion \<open>string(i)\<close> of an integer does not
  print the number: it yields the UTF-8 encoding of the code point \<open>i\<close>, and the encoding
  of U+FFFD for an integer that is not a valid code point (negative, above U+10FFFF, or a
  surrogate).
\<close>

definition utf8_encode :: "nat \<Rightarrow> string" where
  "utf8_encode r =
     (if r < 0x80 then [char_of r]
      else if r < 0x800 then [char_of (0xC0 + r div 0x40), char_of (0x80 + r mod 0x40)]
      else if r < 0x10000 then
        [char_of (0xE0 + r div 0x1000), char_of (0x80 + r div 0x40 mod 0x40),
         char_of (0x80 + r mod 0x40)]
      else
        [char_of (0xF0 + r div 0x40000), char_of (0x80 + r div 0x1000 mod 0x40),
         char_of (0x80 + r div 0x40 mod 0x40), char_of (0x80 + r mod 0x40)])"

definition string_of_rune :: "int \<Rightarrow> string" where
  "string_of_rune i =
     (if i < 0 \<or> 0x10FFFF < i \<or> (0xD800 \<le> i \<and> i \<le> 0xDFFF) then utf8_encode 0xFFFD
      else utf8_encode (nat i))"

text \<open>The verb \<open>%d\<close> of \<open>fmt.Printf\<close>: decimal digits, with a minus sign when negative.\<close>

fun show_nat :: "nat \<Rightarrow> string" where
  "show_nat n =
     (if n < 10 then [char_of (48 + n)] else show_nat (n div 10) @ [char_of (48 + n mod 10)])"

declare show_nat.simps [simp del]

definition show_int :: "int \<Rightarrow> string" where
  "show_int i = (if i < 0 then CHR ''-'' # show_nat (nat (- i)) else show_nat (nat i))"

text \<open>
  \<open>make([]T, n)\<close> panics (\<open>makeslice: len out of range\<close>) when the length is negative or
  the slice would be larger than the allocator's limit \<open>maxAlloc\<close>, which is \<open>2 ^ 48\<close> bytes
  on the 64-bit targets.
\<close>

definition maxAlloc :: int where
  "maxAlloc = 2 ^ 48"

definition makeslice_panics :: "int \<Rightarrow> int \<Rightarrow> bool" where
  "makeslice_panics elem_size len = (len < 0 \<or> maxAlloc < elem_size * len)"

text \<open>
  \<open>time.Now()\<close> yields an instant; \<open>Nanosecond()\<close> is the nanosecond offset of that
  instant within its second, a value in \<open>[0, 999999999]\<close>. An instant is kept as its
  number of nanoseconds since the epoch.
\<close>

datatype Time = Time (UnixNano: int)

definition Nanosecond :: "Time \<Rightarrow> int" where
  "Nanosecond t = UnixNano t mod 1000000000"

section \<open>Data model\<close>

record ExecOptions =
  Broker :: string
  ClientNum :: int
  Count :: int
  MessageSize :: int
  Qos :: "8 word"

text \<open>
  A handle of the MQTT library: the client made by the \<open>i\<close>-th call of \<open>Connect\<close>, with
  the client identifier it was configured with.
\<close>

datatype client = Client (conn_index: int) (client_id: string)

text \<open>
  The token an asynchronous library call returns: what \<open>token.Wait()\<close> answers and what
  \<open>token.Error()\<close> holds afterwards (\<open>None\<close> is \<open>nil\<close>).
\<close>

record token =
  tok_wait :: bool
  tok_error :: "string option"

text \<open>
  Everything the program observes from outside: the outcome of each library call, the
  two clock readings, and the value a worker goroutine finds in the loop variable \<open>id\<close>
  it captured (the spawning loop of \<open>PublishAllClient\<close> keeps incrementing that variable
  while the goroutines run, so the value read is not fixed by the program; with one
  variable per iteration it is the spawning index itself). The rendering of the
  \<open>float64\<close> throughput by \<open>%.2f\<close> is taken as a parameter, from the two integers the
  floating-point expression is computed from.
\<close>

record world =
  connect_token :: "int \<Rightarrow> token"
  publish_token :: "client \<Rightarrow> int \<Rightarrow> token"
  subscribe_token :: "client \<Rightarrow> int \<Rightarrow> token"
  seen_id :: "int \<Rightarrow> int \<Rightarrow> int"
  start_time :: Time
  end_time :: Time
  format_throughput :: "int \<Rightarrow> int \<Rightarrow> string"

datatype event =
    Connected client
  | ConnectFailed int
  | Disconnected client
  | Published client string "8 word" string
  | Subscribed client string "8 word"
  | Printed string
  | Slept int

fun is_operation :: "event \<Rightarrow> bool" where
  "is_operation (Published c t q m) = True"
| "is_operation (Subscribed c t q) = True"
| "is_operation e = False"

text \<open>
  What a call of \<open>Execute\<close> amounts to: a runtime panic, the early return after a failed
  connection (with the events up to it), or a complete run: the events before the timed
  phase, the events of each worker goroutine (one list per worker, in spawning order; the
  workers run concurrently, so no order is fixed between the lists), the events after the
  join, and the text of the final \<open>Printf\<close>.
\<close>

datatype outcome =
    Panicked
  | Aborted "event list"
  | Reported "event list" "event list list" "event list" string

section \<open>Message generator\<close>

function cfsm_loop :: "int \<Rightarrow> int \<Rightarrow> string \<Rightarrow> string" where
  "cfsm_loop sz i buffer =
     (if i < sz then cfsm_loop sz (i + 1) (buffer @ string_of_rune (i smod 10)) else buffer)"
  by pat_completeness auto
termination
  by (relation "measure (\<lambda>(sz, i, buffer). nat (sz - i))") auto

declare cfsm_loop.simps [simp del]

definition CreateFixedSizeMessage :: "int \<Rightarrow> string" where
  "CreateFixedSizeMessage sz = cfsm_loop sz 0 []"

section \<open>Protocol client adapter\<close>

definition failed :: "token \<Rightarrow> bool" where
  "failed tk = (tok_wait tk \<and> tok_error tk \<noteq> None)"

definition error_text :: "token \<Rightarrow> string" where
  "error_text tk = (case tok_error tk of None \<Rightarrow> [] | Some e \<Rightarrow> e)"

definition new_client :: "int \<Rightarrow> client" where
  "new_client cid = Client cid (''mqtt-benchmark'' @ string_of_rune cid)"

text \<open>The handles of the first \<open>k\<close> connect calls, in order.\<close>

definition connected_handles :: "int \<Rightarrow> client list" where
  "connected_handles k = map new_client [0..k - 1]"

definition Connect :: "world \<Rightarrow> string \<Rightarrow> int \<Rightarrow> client option \<times> event list" where
  "Connect w broker cid =
     (let client = new_client cid; tk = connect_token w cid
      in if failed tk
         then (None, [ConnectFailed cid, Printed (''Connected error: '' @ error_text tk @ ''\<newline>'')])
         else (Some client, [Connected client]))"

definition Disconnect :: "client \<Rightarrow> event list" where
  "Disconnect client = [Disconnected client]"

text \<open>
  \<open>Publish\<close> and \<open>Subscribe\<close> take, besides the arguments of the source, the number of the
  call on this handle, which selects the token the library hands back.
\<close>

definition Publish :: "world \<Rightarrow> int \<Rightarrow> client \<Rightarrow> string \<Rightarrow> 8 word \<Rightarrow> string \<Rightarrow> event list" where
  "Publish w n client tp qos message =
     (let tk = publish_token w client n
      in Published client tp qos message
         # (if failed tk then [Printed (''Publish error: '' @ error_text tk @ ''\<newline>'')] else []))"

definition Subscribe :: "world \<Rightarrow> int \<Rightarrow> client \<Rightarrow> string \<Rightarrow> 8 word \<Rightarrow> event list" where
  "Subscribe w n client tp qos =
     (let tk = subscribe_token w client n
      in Subscribed client tp qos
         # (if failed tk then [Printed (''Subscribe error: '' @ error_text tk @ ''\<newline>'')] else []))"

definition topic :: "int \<Rightarrow> int \<Rightarrow> string" where
  "topic cid index = ''/go-mqtt/benchmark/'' @ string_of_rune cid @ ''/'' @ string_of_rune index"

section \<open>Workers\<close>

function publish_loop ::
  "world \<Rightarrow> ExecOptions \<Rightarrow> string \<Rightarrow> int \<Rightarrow> client \<Rightarrow> int \<Rightarrow> event list" where
  "publish_loop w opts message cid client index =
     (if index < Count opts
      then Publish w index client (topic (seen_id w cid index) index) (Qos opts) message
           @ publish_loop w opts message cid client (index + 1)
      else [])"
  by pat_completeness auto
termination
  by (relation "measure (\<lambda>(w, opts, message, cid, client, index). nat (Count opts - index))") auto

declare publish_loop.simps [simp del]

function subscribe_loop :: "world \<Rightarrow> ExecOptions \<Rightarrow> int \<Rightarrow> client \<Rightarrow> int \<Rightarrow> event list" where
  "subscribe_loop w opts cid client index =
     (if index < Count opts
      then Subscribe w index client (topic (seen_id w cid index) index) (Qos opts)
           @ subscribe_loop w opts cid client (index + 1)
      else [])"
  by pat_completeness auto
termination
  by (relation "measure (\<lambda>(w, opts, cid, client, index). nat (Count opts - index))") auto

declare subscribe_loop.simps [simp del]

text \<open>
  \<open>param[0]\<close> panics when no parameter was passed. One goroutine is spawned per entry of
  \<open>clients\<close>, each with the entry \<open>clients[id]\<close> of its own iteration.
\<close>

definition PublishAllClient ::
  "world \<Rightarrow> client list \<Rightarrow> ExecOptions \<Rightarrow> string list \<Rightarrow> event list list option" where
  "PublishAllClient w clients opts param =
     (case param of
        [] \<Rightarrow> None
      | message # rest \<Rightarrow>
          Some (map (\<lambda>(cid, client). publish_loop w opts message (int cid) client 0)
                  (enumerate 0 clients)))"

definition SubscribeAllClient ::
  "world \<Rightarrow> client list \<Rightarrow> ExecOptions \<Rightarrow> string list \<Rightarrow> event list list option" where
  "SubscribeAllClient w clients opts param =
     Some (map (\<lambda>(cid, client). subscribe_loop w opts (int cid) client 0) (enumerate 0 clients))"

section \<open>Benchmark driver\<close>

function connect_loop ::
  "world \<Rightarrow> ExecOptions \<Rightarrow> int \<Rightarrow> client option list \<Rightarrow> event list
     \<Rightarrow> client option list \<times> bool \<times> event list" where
  "connect_loop w opts i clients tr =
     (if i < ClientNum opts
      then (case Connect w (Broker opts) i of
              (None, evs) \<Rightarrow> (clients, True, tr @ evs)
            | (Some client, evs) \<Rightarrow>
                connect_loop w opts (i + 1) (clients[nat i := Some client]) (tr @ evs))
      else (clients, False, tr))"
  by pat_completeness auto
termination
  by (relation "measure (\<lambda>(w, opts, i, clients, tr). nat (ClientNum opts - i))") auto

declare connect_loop.simps [simp del]

fun disconnect_connected :: "client option list \<Rightarrow> event list" where
  "disconnect_connected [] = []"
| "disconnect_connected (None # clients) = disconnect_connected clients"
| "disconnect_connected (Some client # clients) = Disconnect client @ disconnect_connected clients"

fun disconnect_all :: "client list \<Rightarrow> event list" where
  "disconnect_all [] = []"
| "disconnect_all (client # clients) = Disconnect client @ disconnect_all clients"

definition totalCount :: "ExecOptions \<Rightarrow> int" where
  "totalCount opts = wrap64 (ClientNum opts * Count opts)"

definition duration :: "world \<Rightarrow> int" where
  "duration w = (Nanosecond (end_time w) - Nanosecond (start_time w)) sdiv 1000000"

definition summary_line :: "world \<Rightarrow> ExecOptions \<Rightarrow> string" where
  "summary_line w opts =
     ''\<newline>Publish result : broker='' @ Broker opts
     @ '', clients='' @ show_int (ClientNum opts)
     @ '', count='' @ show_int (Count opts)
     @ '', duration='' @ show_int (duration w)
     @ ''ms, throughput='' @ format_throughput w (totalCount opts) (duration w)
     @ ''messages/sec\<newline>''"

text \<open>
  The elements of \<open>clients\<close> are pointers, of 8 bytes each; \<open>make\<close> panics before any
  connection when \<open>ClientNum\<close> is negative or too large. After a connect loop without error
  every entry of \<open>clients\<close> is a live handle; a \<open>nil\<close> entry there would be dereferenced by
  \<open>Disconnect(clients[i])\<close>, which is a panic as well.
\<close>

definition Execute ::
  "world \<Rightarrow> (world \<Rightarrow> client list \<Rightarrow> ExecOptions \<Rightarrow> string list \<Rightarrow> event list list option)
     \<Rightarrow> ExecOptions \<Rightarrow> outcome" where
  "Execute w exec opts =
     (let message = CreateFixedSizeMessage (MessageSize opts)
      in if makeslice_panics 8 (ClientNum opts) then Panicked
         else
           (case connect_loop w opts 0 (replicate (nat (ClientNum opts)) None) [] of
              (clients, hasErr, tr) \<Rightarrow>
                if hasErr then Aborted (tr @ disconnect_connected clients)
                else
                  (case those clients of
                     None \<Rightarrow> Panicked
                   | Some handles \<Rightarrow>
                       (case exec w handles opts [message] of
                          None \<Rightarrow> Panicked
                        | Some workers \<Rightarrow>
                            Reported (tr @ [Slept 3]) workers (disconnect_all handles)
                              (summary_line w opts)))))"

section \<open>Command line\<close>

text \<open>The command line after \<open>flag.Parse()\<close>: the raw arguments and the value of each flag.\<close>

record cmdline =
  os_Args :: "string list"
  broker_flag :: string
  action_flag :: string
  clients_flag :: int
  count_flag :: int
  size_flag :: int
  qos_flag :: int

datatype action = Pub | Sub

fun exec_of ::
  "action \<Rightarrow> world \<Rightarrow> client list \<Rightarrow> ExecOptions \<Rightarrow> string list \<Rightarrow> event list list option" where
  "exec_of Pub = PublishAllClient"
| "exec_of Sub = SubscribeAllClient"

datatype main_result =
    Usage
  | Invalid string
  | Executed action ExecOptions outcome

definition method_of :: "string \<Rightarrow> action option" where
  "method_of a =
     (if a = ''p'' \<or> a = ''pub'' \<or> a = ''publish'' then Some Pub
      else if a = ''s'' \<or> a = ''sub'' \<or> a = ''subscribe'' then Some Sub
      else None)"

definition main :: "world \<Rightarrow> cmdline \<Rightarrow> main_result" where
  "main w cl =
     (if length (os_Args cl) \<le> 1 then Usage
      else if broker_flag cl = [] \<or> broker_flag cl = ''tcp://{host}:{port}''
      then Invalid (''Invalid argument : -broker -> '' @ broker_flag cl @ ''\<newline>'')
      else
        (case method_of (action_flag cl) of
           None \<Rightarrow> Invalid (''Invalid argument : -action -> '' @ action_flag cl @ ''\<newline>'')
         | Some method \<Rightarrow>
             (let execOpts = \<lparr>Broker = broker_flag cl, ClientNum = clients_flag cl,
                              Count = count_flag cl, MessageSize = size_flag cl,
                              Qos = byte_of_int (qos_flag cl)\<rparr>
              in Executed method execOpts (Execute w (exec_of method) execOpts))))"

text \<open>The options the data model of the specification calls validated.\<close>

definition validated :: "ExecOptions \<Rightarrow> bool" where
  "validated opts =
     (0 < ClientNum opts \<and> 0 < Count opts \<and> 0 \<le> MessageSize opts
      \<and> (Qos opts = 0 \<or> Qos opts = 1 \<or> Qos opts = 2))"

section \<open>Vocabulary of the statements\<close>

text \<open>The body of the goroutine spawned for one client, in either mode.\<close>

definition worker :: "action \<Rightarrow> world \<Rightarrow> ExecOptions \<Rightarrow> string \<Rightarrow> int \<Rightarrow> client \<Rightarrow> event list" where
  "worker m w opts message cid c =
     (case m of
        Pub \<Rightarrow> publish_loop w opts message cid c 0
      | Sub \<Rightarrow> subscribe_loop w opts cid c 0)"

definition op_event :: "action \<Rightarrow> client \<Rightarrow> string \<Rightarrow> 8 word \<Rightarrow> string \<Rightarrow> event" where
  "op_event m c tp q message = (case m of Pub \<Rightarrow> Published c tp q message | Sub \<Rightarrow> Subscribed c tp q)"

definition op_token :: "action \<Rightarrow> world \<Rightarrow> client \<Rightarrow> int \<Rightarrow> token" where
  "op_token m w = (case m of Pub \<Rightarrow> publish_token w | Sub \<Rightarrow> subscribe_token w)"

definition op_diagnostic :: "action \<Rightarrow> token \<Rightarrow> string" where
  "op_diagnostic m tk =
     (case m of Pub \<Rightarrow> ''Publish error: '' | Sub \<Rightarrow> ''Subscribe error: '')
     @ error_text tk @ ''\<newline>''"


text \<open>
  The integers \<open>string(i)\<close> encodes faithfully, and a reader of one UTF-8 encoded code point
  from the front of a string (a device of the proofs about topics; the program has no such
  function).
\<close>

definition valid_rune :: "int \<Rightarrow> bool" where
  "valid_rune i = (0 \<le> i \<and> i \<le> 0x10FFFF \<and> \<not> (0xD800 \<le> i \<and> i \<le> 0xDFFF))"

definition utf8_decode :: "string \<Rightarrow> nat \<times> string" where
  "utf8_decode s =
     (let b = (\<lambda>k. of_char (s ! k) :: nat)
      in if b 0 < 0x80 then (b 0, drop 1 s)
         else if b 0 < 0xE0 then ((b 0 - 0xC0) * 0x40 + (b 1 - 0x80), drop 2 s)
         else if b 0 < 0xF0 then
           ((b 0 - 0xE0) * 0x1000 + (b 1 - 0x80) * 0x40 + (b 2 - 0x80), drop 3 s)
         else
           ((b 0 - 0xF0) * 0x40000 + (b 1 - 0x80) * 0x1000 + (b 2 - 0x80) * 0x40 + (b 3 - 0x80),
            drop 4 s))"

text \<open>Sample inputs: tokens, worlds and options used to instantiate the theorems.\<close>

definition ok_token :: token where
  "ok_token = \<lparr>tok_wait = True, tok_error = None\<rparr>"

definition error_token :: token where
  "error_token = \<lparr>tok_wait = True, tok_error = Some ''refused''\<rparr>"

definition quiet_world :: world where
  "quiet_world =
     \<lparr>connect_token = (\<lambda>i. ok_token), publish_token = (\<lambda>c n. ok_token),
      subscribe_token = (\<lambda>c n. ok_token), seen_id = (\<lambda>cid index. cid),
      start_time = Time 5000000000, end_time = Time 5250000000,
      format_throughput = (\<lambda>total ms. ''?'')\<rparr>"

definition sample_opts :: ExecOptions where
  "sample_opts =
     \<lparr>Broker = ''tcp://localhost:1883'', ClientNum = 2, Count = 5, MessageSize = 0, Qos = 0\<rparr>"

text \<open>A world in which the second connection is refused.\<close>

definition refusing_world :: world where
  "refusing_world =
     quiet_world\<lparr>connect_token := (\<lambda>i. if i = 1 then error_token else ok_token)\<rparr>"

text \<open>
  Worlds in which every call succeeds and the throughput is rendered by \<open>f\<close>. In the
  first the timed phase starts at 10.9 s and ends at 11.1 s: it lasts 200 ms and crosses
  the boundary of a second. In the second it starts at 10.1 s and ends at 12.3 s: it lasts
  2.2 s.
\<close>

definition crossing_world :: "(int \<Rightarrow> int \<Rightarrow> string) \<Rightarrow> world" where
  "crossing_world f =
     quiet_world\<lparr>start_time := Time 10900000000, end_time := Time 11100000000,
                  format_throughput := f\<rparr>"

definition slow_world :: "(int \<Rightarrow> int \<Rightarrow> string) \<Rightarrow> world" where
  "slow_world f =
     quiet_world\<lparr>start_time := Time 10100000000, end_time := Time 12300000000,
                  format_throughput := f\<rparr>"

text \<open>Operation outcomes in which the third operation on every handle fails.\<close>

definition flaky :: "client \<Rightarrow> int \<Rightarrow> token" where
  "flaky c n = (if n = 2 then error_token else ok_token)"




text \<open>
  The command line \<open>mqtt-bench -broker=tcp://localhost:1883 -action=p -clients=0 -count=-1
  -size=-1 -qos=3\<close> and the options \<open>main\<close> builds from it.
\<close>

definition lax_cmdline :: cmdline where
  "lax_cmdline =
     \<lparr>os_Args = [''mqtt-bench'', ''-broker=tcp://localhost:1883'', ''-action=p'', ''-clients=0'',
                 ''-count=-1'', ''-size=-1'', ''-qos=3''],
      broker_flag = ''tcp://localhost:1883'', action_flag = ''p'', clients_flag = 0,
      count_flag = - 1, size_flag = - 1, qos_flag = 3\<rparr>"

definition lax_opts :: ExecOptions where
  "lax_opts =
     \<lparr>Broker = ''tcp://localhost:1883'', ClientNum = 0, Count = - 1, MessageSize = - 1, Qos = 3\<rparr>"

section \<open>Facts about the sample inputs\<close>

lemma quiet_connects: "\<not> failed (connect_token quiet_world i)"
  by (simp add: quiet_world_def failed_def ok_token_def)

lemma refusing_connects:
  "failed (connect_token refusing_world 1)" "error_text (connect_token refusing_world 1) = ''refused''"
  by (simp_all add: refusing_world_def quiet_world_def failed_def error_text_def error_token_def)

lemma sample_opts_simps:
  "ClientNum sample_opts = 2" "Count sample_opts = 5" "MessageSize sample_opts = 0"
  "Qos sample_opts = 0" "Broker sample_opts = ''tcp://localhost:1883''"
  by (simp_all add: sample_opts_def)

lemma show_int_samples:
  "show_int 2 = ''2''" "show_int 5 = ''5''" "show_int 0 = ''0''" "show_int 250 = ''250''"
  "show_int (- 1) = ''-1''" "show_int (- 800) = ''-800''" "show_int 200 = ''200''"
  by (simp_all add: show_int_def show_nat.simps char_of_eq_iff)

section \<open>Properties of the message generator\<close>

lemma string_of_rune_digit:
  assumes "0 \<le> i"
  shows "string_of_rune (i smod 10) = [char_of (nat (i mod 10))]"
proof -
  have s: "i smod 10 = i mod 10"
    using assms by (simp add: signed_modulo_int_def sgn_if)
  have "0 \<le> i mod 10" "i mod 10 < 10" by simp_all
  then have "nat (i mod 10) < 128" "\<not> 55296 \<le> i mod 10" "\<not> 1114111 < i mod 10"
    by linarith+
  with \<open>0 \<le> i mod 10\<close> show ?thesis
    unfolding s by (simp add: string_of_rune_def utf8_encode_def)
qed

lemma cfsm_loop_length:
  "0 \<le> i \<Longrightarrow> length (cfsm_loop sz i buffer) = length buffer + nat (sz - i)"
proof (induction sz i buffer rule: cfsm_loop.induct)
  case (1 sz i buffer)
  show ?case
  proof (cases "i < sz")
    case True
    with 1 show ?thesis
      by (subst cfsm_loop.simps) (simp add: string_of_rune_digit)
  next
    case False
    then show ?thesis by (subst cfsm_loop.simps) simp
  qed
qed

lemma cfsm_loop_nth:
  "0 \<le> i \<Longrightarrow> k < length buffer + nat (sz - i) \<Longrightarrow>
   cfsm_loop sz i buffer ! k =
     (if k < length buffer then buffer ! k
      else char_of ((nat i + (k - length buffer)) mod 10))"
proof (induction sz i buffer rule: cfsm_loop.induct)
  case (1 sz i buffer)
  show ?case
  proof (cases "i < sz")
    case True
    have m: "nat (i mod 10) = nat i mod 10"
      using "1.prems"(1) by (simp add: nat_mod_distrib)
    have step: "cfsm_loop sz i buffer = cfsm_loop sz (i + 1) (buffer @ [char_of (nat i mod 10)])"
      using True "1.prems"(1) by (subst cfsm_loop.simps) (simp add: string_of_rune_digit m)
    have k': "k < length (buffer @ [char_of (nat i mod 10)]) + nat (sz - (i + 1))"
      using True "1.prems" by simp
    have ih: "cfsm_loop sz (i + 1) (buffer @ [char_of (nat i mod 10)]) ! k =
        (if k < Suc (length buffer) then (buffer @ [char_of (nat i mod 10)]) ! k
         else char_of ((nat (i + 1) + (k - Suc (length buffer))) mod 10))"
      using "1.IH" k' "1.prems"(1) True
      by (simp add: string_of_rune_digit m)
    consider "k < length buffer" | "k = length buffer" | "length buffer < k" by linarith
    then show ?thesis
    proof cases
      case 1
      then show ?thesis unfolding step ih by (simp add: nth_append)
    next
      case 2
      then show ?thesis unfolding step ih by (simp add: nth_append)
    next
      case 3
      then have "nat (i + 1) + (k - Suc (length buffer)) = nat i + (k - length buffer)"
        using "1.prems"(1) by (simp add: nat_add_distrib)
      with 3 show ?thesis unfolding step ih by simp
    qed
  next
    case False
    with 1 show ?thesis by (subst cfsm_loop.simps) simp
  qed
qed

text \<open>
  Claim C4. For every size \<open>sz \<ge> 0\<close> the generated message has exactly \<open>sz\<close> bytes, and
  size 0 yields the empty buffer. The generator is a total function of its argument alone:
  it reads nothing else and has no error result.
\<close>

theorem message_length:
  "0 \<le> sz \<Longrightarrow> length (CreateFixedSizeMessage sz) = nat sz \<and> CreateFixedSizeMessage 0 = []"
  by (simp add: CreateFixedSizeMessage_def cfsm_loop_length) (simp add: cfsm_loop.simps)

theorem message_length_witness:
  "(0::int) \<le> 13 \<and> length (CreateFixedSizeMessage 13) = nat 13 \<and> CreateFixedSizeMessage 0 = []"
  using message_length [of 13] by simp

text \<open>The byte at position \<open>k\<close> is the byte of value \<open>k mod 10\<close>, not a digit character.\<close>

lemma message_nth:
  "0 \<le> sz \<Longrightarrow> k < nat sz \<Longrightarrow> CreateFixedSizeMessage sz ! k = char_of (k mod 10)"
  by (simp add: CreateFixedSizeMessage_def cfsm_loop_nth)

text \<open>
  Claim C3 states that the content is the digit characters, \<open>0123456789012\<close> for size 13.
  The loop appends \<open>string(i % 10)\<close>, which is the character with code \<open>i % 10\<close>: for size
  13 the message is the bytes 0x00 to 0x09 followed by 0x00, 0x01, 0x02.
\<close>

theorem message_not_digits:
  "CreateFixedSizeMessage 13 =
     [CHR 0x00, CHR 0x01, CHR 0x02, CHR 0x03, CHR 0x04, CHR 0x05, CHR 0x06, CHR 0x07,
      CHR 0x08, CHR 0x09, CHR 0x00, CHR 0x01, CHR 0x02]
   \<and> CreateFixedSizeMessage 13 \<noteq> ''0123456789012''"
  by code_simp

section \<open>Properties of the connect phase\<close>

lemma connected_handles_0: "connected_handles 0 = []"
  by (simp add: connected_handles_def)

lemma connected_handles_step: "0 \<le> k \<Longrightarrow> connected_handles (k + 1) = connected_handles k @ [new_client k]"
  using upto_rec2 [of 0 k] by (simp add: connected_handles_def)

lemma length_connected_handles: "length (connected_handles k) = nat k"
  by (simp add: connected_handles_def)

lemma Connect_ok:
  "\<not> failed (connect_token w i) \<Longrightarrow> Connect w b i = (Some (new_client i), [Connected (new_client i)])"
  by (simp add: Connect_def Let_def)

lemma Connect_failed:
  "failed (connect_token w i) \<Longrightarrow>
   Connect w b i =
     (None, [ConnectFailed i,
             Printed (''Connected error: '' @ error_text (connect_token w i) @ ''\<newline>'')])"
  by (simp add: Connect_def Let_def)

lemma connect_loop_prefix:
  assumes "0 \<le> k" "k \<le> ClientNum opts"
    and "\<forall>j. 0 \<le> j \<and> j < k \<longrightarrow> \<not> failed (connect_token w j)"
  shows "connect_loop w opts 0 (replicate (nat (ClientNum opts)) None) [] =
         connect_loop w opts k
           (map Some (connected_handles k) @ replicate (nat (ClientNum opts - k)) None)
           (map Connected (connected_handles k))"
  using assms
proof (induction k rule: int_ge_induct)
  case base
  then show ?case by (simp add: connected_handles_0)
next
  case (step k)
  let ?N = "ClientNum opts"
  let ?cl = "map Some (connected_handles k) @ replicate (nat (?N - k)) None"
  have lt: "k < ?N" using step.prems by simp
  have ok: "\<not> failed (connect_token w k)" using step.prems step.hyps by simp
  have rep: "replicate (nat (?N - k)) (None :: client option)
               = None # replicate (nat (?N - (k + 1))) None"
  proof -
    have "nat (?N - k) = Suc (nat (?N - (k + 1)))" using lt by linarith
    then show ?thesis by (simp only: replicate_Suc)
  qed
  have upd: "?cl[nat k := Some (new_client k)]
               = map Some (connected_handles (k + 1)) @ replicate (nat (?N - (k + 1))) None"
    using step.hyps by (simp add: list_update_append rep length_connected_handles connected_handles_step)
  have "connect_loop w opts 0 (replicate (nat ?N) None) [] =
        connect_loop w opts k ?cl (map Connected (connected_handles k))"
    using step.IH step.prems by simp
  also have "\<dots> = connect_loop w opts (k + 1) (?cl[nat k := Some (new_client k)])
                    (map Connected (connected_handles k) @ [Connected (new_client k)])"
    using lt by (subst connect_loop.simps) (simp add: Connect_ok [OF ok])
  finally show ?case
    using step.hyps by (simp add: upd connected_handles_step)
qed

lemma disconnect_connected_live:
  "disconnect_connected (map Some cs @ replicate n None) = map Disconnected cs"
proof (induction cs)
  case Nil
  show ?case by (induction n) simp_all
next
  case (Cons c cs)
  then show ?case by (simp add: Disconnect_def)
qed

lemma disconnect_all_map: "disconnect_all cs = map Disconnected cs"
  by (induction cs) (simp_all add: Disconnect_def)

lemma those_map_Some: "those (map Some xs) = Some xs"
  by (induction xs) simp_all

lemma make_accepts: "\<not> makeslice_panics 8 n \<longleftrightarrow> 0 \<le> n \<and> n \<le> 35184372088832"
  by (auto simp: makeslice_panics_def maxAlloc_def)

lemma Execute_make_panics: "makeslice_panics 8 (ClientNum opts) \<Longrightarrow> Execute w exec opts = Panicked"
  by (simp add: Execute_def)

lemma Execute_aborted:
  assumes "0 \<le> k" "k < ClientNum opts" "failed (connect_token w k)"
    and "\<forall>j. 0 \<le> j \<and> j < k \<longrightarrow> \<not> failed (connect_token w j)"
    and "\<not> makeslice_panics 8 (ClientNum opts)"
  shows "Execute w exec opts =
         Aborted (map Connected (connected_handles k)
                  @ [ConnectFailed k,
                     Printed (''Connected error: '' @ error_text (connect_token w k) @ ''\<newline>'')]
                  @ map Disconnected (connected_handles k))"
proof -
  let ?N = "ClientNum opts"
  let ?cl = "map Some (connected_handles k) @ replicate (nat (?N - k)) None"
  have "connect_loop w opts 0 (replicate (nat ?N) None) [] =
        connect_loop w opts k ?cl (map Connected (connected_handles k))"
    using assms(1-4) by (intro connect_loop_prefix) simp_all
  also have "\<dots> = (?cl, True, map Connected (connected_handles k)
                      @ [ConnectFailed k,
                         Printed (''Connected error: '' @ error_text (connect_token w k) @ ''\<newline>'')])"
    using assms(2) by (subst connect_loop.simps) (simp add: Connect_failed [OF assms(3)])
  finally have loop: "connect_loop w opts 0 (replicate (nat ?N) None) [] = \<dots>" .
  have dis: "disconnect_connected ?cl = map Disconnected (connected_handles k)"
    by (rule disconnect_connected_live)
  show ?thesis
    using assms(5) by (simp add: Execute_def loop dis)
qed

lemma Execute_success:
  assumes "\<not> makeslice_panics 8 (ClientNum opts)"
    and "\<forall>j. 0 \<le> j \<and> j < ClientNum opts \<longrightarrow> \<not> failed (connect_token w j)"
  shows "Execute w exec opts =
         (case exec w (connected_handles (ClientNum opts)) opts
                 [CreateFixedSizeMessage (MessageSize opts)] of
            None \<Rightarrow> Panicked
          | Some workers \<Rightarrow>
              Reported (map Connected (connected_handles (ClientNum opts)) @ [Slept 3]) workers
                (map Disconnected (connected_handles (ClientNum opts))) (summary_line w opts))"
proof -
  let ?N = "ClientNum opts"
  let ?cl = "map Some (connected_handles ?N)"
  have n: "0 \<le> ?N"
    using assms(1) by (simp add: make_accepts)
  have "connect_loop w opts 0 (replicate (nat ?N) None) [] =
        connect_loop w opts ?N (?cl @ replicate (nat (?N - ?N)) None)
          (map Connected (connected_handles ?N))"
    using n assms(2) by (intro connect_loop_prefix) simp_all
  also have "\<dots> = (?cl, False, map Connected (connected_handles ?N))"
    by (subst connect_loop.simps) simp
  finally have loop: "connect_loop w opts 0 (replicate (nat ?N) None) [] = \<dots>" .
  have th: "those ?cl = Some (connected_handles ?N)"
    by (rule those_map_Some)
  show ?thesis
  proof (cases "exec w (connected_handles ?N) opts [CreateFixedSizeMessage (MessageSize opts)]")
    case None
    then show ?thesis
      using assms(1) by (simp add: Execute_def loop th)
  next
    case (Some ws)
    then show ?thesis
      using assms(1) by (simp add: Execute_def loop th disconnect_all_map)
  qed
qed

lemma first_failure:
  assumes "0 \<le> i" "failed (connect_token w i)"
  obtains k where "0 \<le> k" "k \<le> i" "failed (connect_token w k)"
    "\<forall>j. 0 \<le> j \<and> j < k \<longrightarrow> \<not> failed (connect_token w j)"
proof -
  define P where "P n = failed (connect_token w (int n))" for n
  have Pi: "P (nat i)" using assms by (simp add: P_def)
  define n where "n = (LEAST n. P n)"
  have Pn: "P n" unfolding n_def using Pi by (rule LeastI)
  have le: "n \<le> nat i" unfolding n_def using Pi by (rule Least_le)
  have least: "\<not> P m" if "m < n" for m
    using that not_less_Least unfolding n_def by blast
  show ?thesis
  proof (rule that [of "int n"])
    show "0 \<le> int n" by simp
    show "int n \<le> i" using le assms(1) by linarith
    show "failed (connect_token w (int n))" using Pn by (simp add: P_def)
    show "\<forall>j. 0 \<le> j \<and> j < int n \<longrightarrow> \<not> failed (connect_token w j)"
    proof (intro allI impI)
      fix j assume j: "0 \<le> j \<and> j < int n"
      then have "nat j < n" by linarith
      then have "\<not> P (nat j)" by (rule least)
      with j show "\<not> failed (connect_token w j)" by (simp add: P_def)
    qed
  qed
qed

text \<open>
  Claim C1. If one of the connect attempts \<open>0 \<le> i < ClientNum\<close> fails (the attempts take
  place, so the client array could be made), the run returns early at the first failing
  attempt \<open>k\<close>: its events are the \<open>k\<close> successful connections, the failure and its
  diagnostic, and the disconnection of those \<open>k\<close> handles. No publish or subscribe operation
  is performed, every handle that was connected is disconnected, and the summary is not
  printed.
\<close>

theorem connect_failure_aborts:
  assumes "\<not> makeslice_panics 8 (ClientNum opts)"
    and "0 \<le> i" "i < ClientNum opts" "failed (connect_token w i)"
  shows "\<exists>k tr. 0 \<le> k \<and> k \<le> i \<and> failed (connect_token w k)
           \<and> Execute w exec opts = Aborted tr
           \<and> tr = map Connected (connected_handles k)
                  @ [ConnectFailed k,
                     Printed (''Connected error: '' @ error_text (connect_token w k) @ ''\<newline>'')]
                  @ map Disconnected (connected_handles k)
           \<and> (\<forall>e \<in> set tr. \<not> is_operation e)
           \<and> (\<forall>c. Connected c \<in> set tr \<longrightarrow> Disconnected c \<in> set tr)
           \<and> Printed (summary_line w opts) \<notin> set tr"
proof -
  obtain k where k: "0 \<le> k" "k \<le> i" "failed (connect_token w k)"
    "\<forall>j. 0 \<le> j \<and> j < k \<longrightarrow> \<not> failed (connect_token w j)"
    using first_failure [OF assms(2,4)] by blast
  define msg where "msg = ''Connected error: '' @ error_text (connect_token w k) @ ''\<newline>''"
  define cs where "cs = connected_handles k"
  define tr where "tr = map Connected cs @ [ConnectFailed k, Printed msg] @ map Disconnected cs"
  have "k < ClientNum opts"
    using k(2) assms(3) by simp
  from Execute_aborted [OF k(1) this k(3,4) assms(1), of exec]
  have ex: "Execute w exec opts = Aborted tr"
    by (simp add: tr_def cs_def msg_def)
  have ops: "\<forall>e \<in> set tr. \<not> is_operation e"
    by (auto simp: tr_def)
  have dis: "\<forall>c. Connected c \<in> set tr \<longrightarrow> Disconnected c \<in> set tr"
    by (auto simp: tr_def)
  have a: "hd msg = CHR ''C''"
    by (simp add: msg_def)
  have b: "hd (summary_line w opts) = CHR ''\<newline>''"
    by (simp add: summary_line_def)
  have "msg \<noteq> summary_line w opts"
    using a b by auto
  then have sm: "Printed (summary_line w opts) \<notin> set tr"
    by (auto simp: tr_def)
  have sh: "tr = map Connected (connected_handles k)
                  @ [ConnectFailed k,
                     Printed (''Connected error: '' @ error_text (connect_token w k) @ ''\<newline>'')]
                  @ map Disconnected (connected_handles k)"
    by (simp add: tr_def cs_def msg_def)
  from k(1,2,3) ex sh ops dis sm show ?thesis by blast
qed

theorem connect_failure_aborts_witness:
  "\<not> makeslice_panics 8 (ClientNum sample_opts)
   \<and> (0::int) \<le> 1 \<and> 1 < ClientNum sample_opts \<and> failed (connect_token refusing_world 1)
   \<and> (\<exists>k tr. 0 \<le> k \<and> k \<le> 1 \<and> failed (connect_token refusing_world k)
          \<and> Execute refusing_world PublishAllClient sample_opts = Aborted tr
          \<and> tr = map Connected (connected_handles k)
                 @ [ConnectFailed k,
                    Printed (''Connected error: '' @ error_text (connect_token refusing_world k)
                             @ ''\<newline>'')]
                 @ map Disconnected (connected_handles k)
          \<and> (\<forall>e \<in> set tr. \<not> is_operation e)
          \<and> (\<forall>c. Connected c \<in> set tr \<longrightarrow> Disconnected c \<in> set tr)
          \<and> Printed (summary_line refusing_world sample_opts) \<notin> set tr)"
  using connect_failure_aborts [of sample_opts 1 refusing_world PublishAllClient]
  by (simp add: sample_opts_simps refusing_connects make_accepts)

text \<open>When the client array cannot be made, no connection is attempted at all.\<close>

lemma too_many_clients_panics:
  "Execute w exec (opts\<lparr>ClientNum := 4611686018427387904\<rparr>) = Panicked"
  by (rule Execute_make_panics) (simp add: makeslice_panics_def maxAlloc_def)

section \<open>Properties of the workers\<close>

lemma Publish_ops:
  "filter is_operation (Publish w n c tp q msg) = [Published c tp q msg]"
  by (simp add: Publish_def Let_def)

lemma Subscribe_ops:
  "filter is_operation (Subscribe w n c tp q) = [Subscribed c tp q]"
  by (simp add: Subscribe_def Let_def)

lemma publish_loop_ops:
  "filter is_operation (publish_loop w opts msg cid c index) =
     map (\<lambda>j. Published c (topic (seen_id w cid j) j) (Qos opts) msg) [index..Count opts - 1]"
proof (induction w opts msg cid c index rule: publish_loop.induct)
  case (1 w opts msg cid c index)
  show ?case
  proof (cases "index < Count opts")
    case True
    then have u: "[index..Count opts - 1] = index # [index + 1..Count opts - 1]"
      by (simp add: upto_rec1)
    show ?thesis
      using True "1.IH" by (subst publish_loop.simps) (simp add: Publish_ops u)
  next
    case False
    then show ?thesis by (subst publish_loop.simps) simp
  qed
qed

lemma subscribe_loop_ops:
  "filter is_operation (subscribe_loop w opts cid c index) =
     map (\<lambda>j. Subscribed c (topic (seen_id w cid j) j) (Qos opts)) [index..Count opts - 1]"
proof (induction w opts cid c index rule: subscribe_loop.induct)
  case (1 w opts cid c index)
  show ?case
  proof (cases "index < Count opts")
    case True
    then have u: "[index..Count opts - 1] = index # [index + 1..Count opts - 1]"
      by (simp add: upto_rec1)
    show ?thesis
      using True "1.IH" by (subst subscribe_loop.simps) (simp add: Subscribe_ops u)
  next
    case False
    then show ?thesis by (subst subscribe_loop.simps) simp
  qed
qed

lemma worker_ops:
  "filter is_operation (worker m w opts msg cid c) =
     map (\<lambda>j. op_event m c (topic (seen_id w cid j) j) (Qos opts) msg) [0..Count opts - 1]"
  by (cases m) (simp_all add: worker_def op_event_def publish_loop_ops subscribe_loop_ops)

lemma worker_ops_length:
  "length (filter is_operation (worker m w opts msg cid c)) = nat (Count opts)"
  by (simp add: worker_ops)


lemma publish_loop_logged:
  "index \<le> j \<Longrightarrow> j < Count opts \<Longrightarrow> failed (publish_token w c j) \<Longrightarrow>
   Printed (''Publish error: '' @ error_text (publish_token w c j) @ ''\<newline>'')
     \<in> set (publish_loop w opts msg cid c index)"
proof (induction w opts msg cid c index rule: publish_loop.induct)
  case (1 w opts msg cid c index)
  have lt: "index < Count opts" using "1.prems" by simp
  show ?case
  proof (cases "j = index")
    case True
    with lt "1.prems"(3) show ?thesis
      by (subst publish_loop.simps) (simp add: Publish_def Let_def)
  next
    case False
    with "1.prems" have "index + 1 \<le> j" by simp
    with "1.IH" lt "1.prems" have "Printed (''Publish error: '' @ error_text (publish_token w c j) @ ''\<newline>'')
        \<in> set (publish_loop w opts msg cid c (index + 1))" by simp
    with lt show ?thesis
      by (subst publish_loop.simps) simp
  qed
qed

lemma subscribe_loop_logged:
  "index \<le> j \<Longrightarrow> j < Count opts \<Longrightarrow> failed (subscribe_token w c j) \<Longrightarrow>
   Printed (''Subscribe error: '' @ error_text (subscribe_token w c j) @ ''\<newline>'')
     \<in> set (subscribe_loop w opts cid c index)"
proof (induction w opts cid c index rule: subscribe_loop.induct)
  case (1 w opts cid c index)
  have lt: "index < Count opts" using "1.prems" by simp
  show ?case
  proof (cases "j = index")
    case True
    with lt "1.prems"(3) show ?thesis
      by (subst subscribe_loop.simps) (simp add: Subscribe_def Let_def)
  next
    case False
    with "1.prems" have "index + 1 \<le> j" by simp
    with "1.IH" lt "1.prems" have "Printed (''Subscribe error: '' @ error_text (subscribe_token w c j) @ ''\<newline>'')
        \<in> set (subscribe_loop w opts cid c (index + 1))" by simp
    with lt show ?thesis
      by (subst subscribe_loop.simps) simp
  qed
qed

lemma worker_logged:
  "0 \<le> j \<Longrightarrow> j < Count opts \<Longrightarrow> failed (op_token m w c j) \<Longrightarrow>
   Printed (op_diagnostic m (op_token m w c j)) \<in> set (worker m w opts msg cid c)"
  using publish_loop_logged [of 0 j opts w c msg cid] subscribe_loop_logged [of 0 j opts w c cid]
  by (cases m) (simp_all add: worker_def op_token_def op_diagnostic_def)

lemma publish_loop_cong:
  "\<forall>j. publish_token w' c j = publish_token w c j \<Longrightarrow> seen_id w' = seen_id w \<Longrightarrow>
   publish_loop w' opts msg cid c index = publish_loop w opts msg cid c index"
proof (induction w opts msg cid c index rule: publish_loop.induct)
  case (1 w opts msg cid c index)
  show ?case
  proof (cases "index < Count opts")
    case True
    with 1 show ?thesis
      by (subst publish_loop.simps, subst (2) publish_loop.simps) (simp add: Publish_def)
  next
    case False
    then show ?thesis
      by (subst publish_loop.simps, subst (2) publish_loop.simps) simp
  qed
qed

lemma subscribe_loop_cong:
  "\<forall>j. subscribe_token w' c j = subscribe_token w c j \<Longrightarrow> seen_id w' = seen_id w \<Longrightarrow>
   subscribe_loop w' opts cid c index = subscribe_loop w opts cid c index"
proof (induction w opts cid c index rule: subscribe_loop.induct)
  case (1 w opts cid c index)
  show ?case
  proof (cases "index < Count opts")
    case True
    with 1 show ?thesis
      by (subst subscribe_loop.simps, subst (2) subscribe_loop.simps) (simp add: Subscribe_def)
  next
    case False
    then show ?thesis
      by (subst subscribe_loop.simps, subst (2) subscribe_loop.simps) simp
  qed
qed

lemma worker_cong:
  "\<forall>j. op_token m w' c j = op_token m w c j \<Longrightarrow> seen_id w' = seen_id w \<Longrightarrow>
   worker m w' opts msg cid c = worker m w opts msg cid c"
  by (cases m) (simp_all add: worker_def op_token_def publish_loop_cong subscribe_loop_cong)

lemma exec_of_workers:
  "exec_of m w hs opts [msg] =
     Some (map (\<lambda>(cid, c). worker m w opts msg (int cid) c) (enumerate 0 hs))"
  by (cases m) (simp_all add: PublishAllClient_def SubscribeAllClient_def worker_def)

lemma connected_handles_nth:
  "k < nat n \<Longrightarrow> connected_handles n ! k = new_client (int k)"
  by (simp add: connected_handles_def nth_upto)


section \<open>Properties of a complete run\<close>

lemma Execute_Reported_D:
  assumes "Execute w exec opts = Reported pre ws post line"
  shows "\<not> makeslice_panics 8 (ClientNum opts)"
    and "\<forall>j. 0 \<le> j \<and> j < ClientNum opts \<longrightarrow> \<not> failed (connect_token w j)"
    and "exec w (connected_handles (ClientNum opts)) opts
           [CreateFixedSizeMessage (MessageSize opts)] = Some ws"
    and "pre = map Connected (connected_handles (ClientNum opts)) @ [Slept 3]"
    and "post = map Disconnected (connected_handles (ClientNum opts))"
    and "line = summary_line w opts"
proof -
  show n: "\<not> makeslice_panics 8 (ClientNum opts)"
  proof
    assume "makeslice_panics 8 (ClientNum opts)"
    then have "Execute w exec opts = Panicked" by (rule Execute_make_panics)
    with assms show False by simp
  qed
  show ok: "\<forall>j. 0 \<le> j \<and> j < ClientNum opts \<longrightarrow> \<not> failed (connect_token w j)"
  proof (intro allI impI)
    fix j assume j: "0 \<le> j \<and> j < ClientNum opts"
    show "\<not> failed (connect_token w j)"
    proof
      assume f: "failed (connect_token w j)"
      obtain k where k: "0 \<le> k" "k \<le> j" "failed (connect_token w k)"
        "\<forall>i. 0 \<le> i \<and> i < k \<longrightarrow> \<not> failed (connect_token w i)"
        using first_failure [of j w] j f by blast
      have "k < ClientNum opts" using k(2) j by simp
      from Execute_aborted [OF k(1) this k(3,4) n, of exec] assms show False by simp
    qed
  qed
  let ?r = "exec w (connected_handles (ClientNum opts)) opts
              [CreateFixedSizeMessage (MessageSize opts)]"
  have ex: "Execute w exec opts =
         (case ?r of
            None \<Rightarrow> Panicked
          | Some workers \<Rightarrow>
              Reported (map Connected (connected_handles (ClientNum opts)) @ [Slept 3]) workers
                (map Disconnected (connected_handles (ClientNum opts))) (summary_line w opts))"
    using n ok by (rule Execute_success)
  obtain ws' where r: "?r = Some ws'"
    using ex assms by (cases ?r) simp_all
  from ex assms have eq: "Reported pre ws post line =
      Reported (map Connected (connected_handles (ClientNum opts)) @ [Slept 3]) ws'
        (map Disconnected (connected_handles (ClientNum opts))) (summary_line w opts)"
    by (simp add: r)
  then show "?r = Some ws" using r by simp
  from eq show "pre = map Connected (connected_handles (ClientNum opts)) @ [Slept 3]" by simp
  from eq show "post = map Disconnected (connected_handles (ClientNum opts))" by simp
  from eq show "line = summary_line w opts" by simp
qed

lemma Execute_workers:
  assumes "\<not> makeslice_panics 8 (ClientNum opts)"
    and "\<forall>j. 0 \<le> j \<and> j < ClientNum opts \<longrightarrow> \<not> failed (connect_token w j)"
  shows "Execute w (exec_of m) opts =
         Reported (map Connected (connected_handles (ClientNum opts)) @ [Slept 3])
           (map (\<lambda>(cid, c). worker m w opts (CreateFixedSizeMessage (MessageSize opts)) (int cid) c)
              (enumerate 0 (connected_handles (ClientNum opts))))
           (map Disconnected (connected_handles (ClientNum opts))) (summary_line w opts)"
  using Execute_success [OF assms, of "exec_of m"] by (simp add: exec_of_workers)

lemma workers_nth:
  assumes "k < nat n"
  shows "map (\<lambda>(cid, c). worker m w opts msg (int cid) c) (enumerate 0 (connected_handles n)) ! k
           = worker m w opts msg (int k) (new_client (int k))"
  using assms by (simp add: length_connected_handles nth_enumerate_eq connected_handles_nth)


lemma quiet_run:
  "Execute quiet_world (exec_of m) sample_opts =
     Reported (map Connected (connected_handles 2) @ [Slept 3])
       (map (\<lambda>(cid, c). worker m quiet_world sample_opts (CreateFixedSizeMessage 0) (int cid) c)
          (enumerate 0 (connected_handles 2)))
       (map Disconnected (connected_handles 2)) (summary_line quiet_world sample_opts)"
  using Execute_workers [of sample_opts quiet_world m]
  by (simp add: sample_opts_simps quiet_connects make_accepts)




lemma summary_line_tokens:
  "summary_line (w\<lparr>publish_token := p, subscribe_token := s\<rparr>) opts = summary_line w opts"
  by (simp add: summary_line_def duration_def)

text \<open>
  Claim C8. Take any complete run and replace the outcomes of its publish and subscribe
  operations by arbitrary ones (\<open>p\<close> and \<open>s\<close>, failures included). The run is still
  complete, with the same connections, disconnections and summary; every worker attempts
  the same operations as before, \<open>Count\<close> of them, so a failed operation does not end its
  worker; each failure in the iteration range is logged by its worker; and a worker whose
  own outcomes did not change behaves exactly as before.
\<close>

theorem operation_failure_not_fatal:
  assumes "Execute w (exec_of m) opts = Reported pre ws post line"
  shows "\<exists>ws'. Execute (w\<lparr>publish_token := p, subscribe_token := s\<rparr>) (exec_of m) opts =
                  Reported pre ws' post line
           \<and> length ws' = length ws
           \<and> (\<forall>k < length ws.
                 filter is_operation (ws' ! k) = filter is_operation (ws ! k)
                 \<and> length (filter is_operation (ws' ! k)) = nat (Count opts)
                 \<and> (\<forall>j. 0 \<le> j \<and> j < Count opts
                        \<and> failed (op_token m (w\<lparr>publish_token := p, subscribe_token := s\<rparr>)
                                    (connected_handles (ClientNum opts) ! k) j)
                      \<longrightarrow> Printed (op_diagnostic m
                                     (op_token m (w\<lparr>publish_token := p, subscribe_token := s\<rparr>)
                                        (connected_handles (ClientNum opts) ! k) j))
                            \<in> set (ws' ! k))
                 \<and> ((\<forall>j. op_token m (w\<lparr>publish_token := p, subscribe_token := s\<rparr>)
                              (connected_handles (ClientNum opts) ! k) j
                           = op_token m w (connected_handles (ClientNum opts) ! k) j)
                      \<longrightarrow> ws' ! k = ws ! k))"
proof -
  let ?N = "ClientNum opts"
  let ?msg = "CreateFixedSizeMessage (MessageSize opts)"
  let ?w' = "w\<lparr>publish_token := p, subscribe_token := s\<rparr>"
  let ?run = "\<lambda>v. map (\<lambda>(cid, c). worker m v opts ?msg (int cid) c)
                      (enumerate 0 (connected_handles ?N))"
  note D = Execute_Reported_D [OF assms]
  have ws: "ws = ?run w"
    using D(3) by (simp add: exec_of_workers)
  have ok': "\<forall>j. 0 \<le> j \<and> j < ?N \<longrightarrow> \<not> failed (connect_token ?w' j)"
    using D(2) by simp
  have ex: "Execute ?w' (exec_of m) opts = Reported pre (?run ?w') post line"
    using Execute_workers [OF D(1) ok', of m] D(4,5,6) by (simp add: summary_line_tokens)
  have len: "length (?run ?w') = length ws"
    by (simp add: ws)
  have lenN: "length ws = nat ?N"
    by (simp add: ws length_connected_handles)
  have each: "filter is_operation (?run ?w' ! k) = filter is_operation (ws ! k)
      \<and> length (filter is_operation (?run ?w' ! k)) = nat (Count opts)
      \<and> (\<forall>j. 0 \<le> j \<and> j < Count opts \<and> failed (op_token m ?w' (connected_handles ?N ! k) j)
             \<longrightarrow> Printed (op_diagnostic m (op_token m ?w' (connected_handles ?N ! k) j))
                   \<in> set (?run ?w' ! k))
      \<and> ((\<forall>j. op_token m ?w' (connected_handles ?N ! k) j
                = op_token m w (connected_handles ?N ! k) j)
           \<longrightarrow> ?run ?w' ! k = ws ! k)"
    if "k < length ws" for k
  proof -
    from that lenN have k: "k < nat ?N" by simp
    have h: "connected_handles ?N ! k = new_client (int k)"
      using k by (rule connected_handles_nth)
    have n': "?run ?w' ! k = worker m ?w' opts ?msg (int k) (new_client (int k))"
      using k by (rule workers_nth)
    have n: "ws ! k = worker m w opts ?msg (int k) (new_client (int k))"
      unfolding ws using k by (rule workers_nth)
    have a: "filter is_operation (?run ?w' ! k) = filter is_operation (ws ! k)"
      unfolding n n' by (simp add: worker_ops)
    have b: "length (filter is_operation (?run ?w' ! k)) = nat (Count opts)"
      unfolding n' by (rule worker_ops_length)
    have c: "\<forall>j. 0 \<le> j \<and> j < Count opts \<and> failed (op_token m ?w' (connected_handles ?N ! k) j)
             \<longrightarrow> Printed (op_diagnostic m (op_token m ?w' (connected_handles ?N ! k) j))
                   \<in> set (?run ?w' ! k)"
      unfolding n' h using worker_logged [of _ opts m ?w' "new_client (int k)" ?msg "int k"]
      by blast
    have d: "(\<forall>j. op_token m ?w' (connected_handles ?N ! k) j
                = op_token m w (connected_handles ?N ! k) j)
           \<longrightarrow> ?run ?w' ! k = ws ! k"
      unfolding n n' h
      using worker_cong [of m ?w' "new_client (int k)" w opts ?msg "int k"] by simp
    from a b c d show ?thesis by blast
  qed
  from ex len each show ?thesis by blast
qed

theorem operation_failure_not_fatal_witness:
  "Execute quiet_world (exec_of Pub) sample_opts =
     Reported (map Connected (connected_handles 2) @ [Slept 3])
       (map (\<lambda>(cid, c). worker Pub quiet_world sample_opts (CreateFixedSizeMessage 0) (int cid) c)
          (enumerate 0 (connected_handles 2)))
       (map Disconnected (connected_handles 2)) (summary_line quiet_world sample_opts)
   \<and> failed (op_token Pub (quiet_world\<lparr>publish_token := flaky, subscribe_token := flaky\<rparr>)
               (connected_handles 2 ! 0) 2)
   \<and> (\<exists>ws'. Execute (quiet_world\<lparr>publish_token := flaky, subscribe_token := flaky\<rparr>)
                 (exec_of Pub) sample_opts =
               Reported (map Connected (connected_handles 2) @ [Slept 3]) ws'
                 (map Disconnected (connected_handles 2)) (summary_line quiet_world sample_opts)
          \<and> length ws' = 2
          \<and> length (filter is_operation (ws' ! 0)) = 5
          \<and> length (filter is_operation (ws' ! 1)) = 5
          \<and> Printed ''Publish error: refused\<newline>'' \<in> set (ws' ! 0))"
proof -
  let ?w' = "quiet_world\<lparr>publish_token := flaky, subscribe_token := flaky\<rparr>"
  have f: "failed (op_token Pub ?w' c 2)" for c
    by (simp add: op_token_def flaky_def failed_def error_token_def)
  have d: "op_diagnostic Pub (op_token Pub ?w' c 2) = ''Publish error: refused\<newline>''" for c
    by (simp add: op_token_def flaky_def op_diagnostic_def error_text_def error_token_def)
  from operation_failure_not_fatal [OF quiet_run [of Pub], of flaky flaky]
  obtain ws' where ws': "Execute ?w' (exec_of Pub) sample_opts =
               Reported (map Connected (connected_handles 2) @ [Slept 3]) ws'
                 (map Disconnected (connected_handles 2)) (summary_line quiet_world sample_opts)"
      "length ws' = 2"
      "\<forall>k < 2. length (filter is_operation (ws' ! k)) = 5
          \<and> (\<forall>j. 0 \<le> j \<and> j < 5 \<and> failed (op_token Pub ?w' (connected_handles 2 ! k) j)
                \<longrightarrow> Printed (op_diagnostic Pub (op_token Pub ?w' (connected_handles 2 ! k) j))
                      \<in> set (ws' ! k))"
    by (auto simp: sample_opts_simps length_connected_handles)
  from ws'(3) have l: "length (filter is_operation (ws' ! 0)) = 5"
      "length (filter is_operation (ws' ! 1)) = 5"
    by simp_all
  from ws'(3) have "\<forall>j. 0 \<le> j \<and> j < 5 \<and> failed (op_token Pub ?w' (connected_handles 2 ! 0) j)
                \<longrightarrow> Printed (op_diagnostic Pub (op_token Pub ?w' (connected_handles 2 ! 0) j))
                      \<in> set (ws' ! 0)"
    by simp
  then have "0 \<le> (2::int) \<and> (2::int) < 5 \<and> failed (op_token Pub ?w' (connected_handles 2 ! 0) 2)
                \<longrightarrow> Printed (op_diagnostic Pub (op_token Pub ?w' (connected_handles 2 ! 0) 2))
                      \<in> set (ws' ! 0)"
    by blast
  then have p: "Printed ''Publish error: refused\<newline>'' \<in> set (ws' ! 0)"
    by (simp add: f d)
  from quiet_run [of Pub] f ws'(1,2) l p show ?thesis by blast
qed

section \<open>The summary line\<close>

text \<open>
  Claim C10. Whatever function is run in the timed phase (\<open>PublishAllClient\<close> or
  \<open>SubscribeAllClient\<close>), the text printed at the end of a complete run is a line break
  followed by a line that begins with the label \<open>Publish result\<close>.
\<close>

theorem summary_label:
  assumes "Execute w exec opts = Reported pre ws post line"
  shows "\<exists>rest. line = ''\<newline>Publish result'' @ rest"
proof -
  have "line = summary_line w opts"
    using assms by (rule Execute_Reported_D(6))
  then show ?thesis
    by (simp add: summary_line_def)
qed

theorem summary_label_witness:
  "Execute quiet_world SubscribeAllClient sample_opts =
     Reported (map Connected (connected_handles 2) @ [Slept 3])
       (map (\<lambda>(cid, c). worker Sub quiet_world sample_opts (CreateFixedSizeMessage 0) (int cid) c)
          (enumerate 0 (connected_handles 2)))
       (map Disconnected (connected_handles 2)) (summary_line quiet_world sample_opts)
   \<and> (\<exists>rest. summary_line quiet_world sample_opts = ''\<newline>Publish result'' @ rest)"
proof -
  have h: "Execute quiet_world SubscribeAllClient sample_opts =
     Reported (map Connected (connected_handles 2) @ [Slept 3])
       (map (\<lambda>(cid, c). worker Sub quiet_world sample_opts (CreateFixedSizeMessage 0) (int cid) c)
          (enumerate 0 (connected_handles 2)))
       (map Disconnected (connected_handles 2)) (summary_line quiet_world sample_opts)"
    using quiet_run [of Sub] by simp
  from h summary_label [OF h] show ?thesis by blast
qed

section \<open>The reported duration\<close>

text \<open>
  When both clock readings fall into the same second, the difference of their nanosecond
  offsets is the elapsed time, and the duration is its whole number of milliseconds.
\<close>

lemma duration_same_second:
  assumes "UnixNano (start_time w) div 1000000000 = UnixNano (end_time w) div 1000000000"
    and "UnixNano (start_time w) \<le> UnixNano (end_time w)"
  shows "duration w = (UnixNano (end_time w) - UnixNano (start_time w)) div 1000000"
proof -
  let ?s = "UnixNano (start_time w)" and ?e = "UnixNano (end_time w)"
  have "?e = 1000000000 * (?e div 1000000000) + ?e mod 1000000000"
       "?s = 1000000000 * (?s div 1000000000) + ?s mod 1000000000"
    by simp_all
  then have "?e mod 1000000000 - ?s mod 1000000000 = ?e - ?s"
    using assms(1) by linarith
  moreover have "0 \<le> ?e - ?s" using assms(2) by simp
  ultimately show ?thesis
    by (simp add: duration_def Nanosecond_def signed_divide_int_def sgn_if)
qed

text \<open>
  Claim C2 states that the reported duration is the end timestamp minus the start timestamp
  and is positive for a phase that takes time. The program subtracts the values of
  \<open>Nanosecond()\<close>, the offsets within the current second: for a phase from 10.9 s to 11.1 s
  (200 ms) it computes and prints -800 ms.
\<close>

theorem duration_across_second_boundary:
  "UnixNano (end_time (crossing_world f)) - UnixNano (start_time (crossing_world f)) = 200000000
   \<and> duration (crossing_world f) = - 800
   \<and> (\<exists>pre ws post.
          Execute (crossing_world f) PublishAllClient sample_opts =
            Reported pre ws post
              (''\<newline>Publish result : broker=tcp://localhost:1883, clients=2, count=5, duration=-800ms, throughput=''
               @ f 10 (- 800) @ ''messages/sec\<newline>''))"
proof -
  have e: "UnixNano (end_time (crossing_world f)) - UnixNano (start_time (crossing_world f))
             = 200000000"
    by (simp add: crossing_world_def)
  have d: "duration (crossing_world f) = - 800"
    by (simp add: duration_def crossing_world_def Nanosecond_def signed_divide_int_def)
  have t: "totalCount sample_opts = 10"
    by (simp add: totalCount_def sample_opts_simps wrap64_def)
  have r: "format_throughput (crossing_world f) = f"
    by (simp add: crossing_world_def)
  have s: "summary_line (crossing_world f) sample_opts =
       ''\<newline>Publish result : broker=tcp://localhost:1883, clients=2, count=5, duration=-800ms, throughput=''
       @ f 10 (- 800) @ ''messages/sec\<newline>''"
    unfolding summary_line_def d t r by (simp add: sample_opts_simps show_int_samples)
  have c: "\<forall>j. 0 \<le> j \<and> j < ClientNum sample_opts
             \<longrightarrow> \<not> failed (connect_token (crossing_world f) j)"
    by (simp add: crossing_world_def quiet_world_def failed_def ok_token_def)
  have "\<not> makeslice_panics 8 (ClientNum sample_opts)"
    by (simp add: sample_opts_simps make_accepts)
  from Execute_workers [OF this c, of Pub]
  have "\<exists>pre ws post. Execute (crossing_world f) PublishAllClient sample_opts =
          Reported pre ws post (summary_line (crossing_world f) sample_opts)"
    by auto
  with e d show ?thesis unfolding s by blast
qed

section \<open>The reported throughput\<close>

text \<open>
  Claim C7 states that the printed throughput is the total number of operations divided by
  the elapsed time in seconds. The throughput is computed from the duration above, so the
  whole seconds of the phase are lost: for 10 operations in a phase from 10.1 s to 12.3 s
  (2.2 s, about 4.55 messages per second) the program prints a duration of 200 ms and, as
  throughput, the rendering of \<open>float64(10) / float64(200) * 1000\<close> (50.00), whatever the
  rendering function is.
\<close>

theorem throughput_of_long_phase:
  "UnixNano (end_time (slow_world f)) - UnixNano (start_time (slow_world f)) = 2200000000
   \<and> totalCount sample_opts = 10
   \<and> duration (slow_world f) = 200
   \<and> (\<exists>pre ws post.
          Execute (slow_world f) PublishAllClient sample_opts =
            Reported pre ws post
              (''\<newline>Publish result : broker=tcp://localhost:1883, clients=2, count=5, duration=200ms, throughput=''
               @ f 10 200 @ ''messages/sec\<newline>''))"
proof -
  have e: "UnixNano (end_time (slow_world f)) - UnixNano (start_time (slow_world f)) = 2200000000"
    by (simp add: slow_world_def)
  have d: "duration (slow_world f) = 200"
    by (simp add: duration_def slow_world_def Nanosecond_def signed_divide_int_def)
  have t: "totalCount sample_opts = 10"
    by (simp add: totalCount_def sample_opts_simps wrap64_def)
  have r: "format_throughput (slow_world f) = f"
    by (simp add: slow_world_def)
  have s: "summary_line (slow_world f) sample_opts =
       ''\<newline>Publish result : broker=tcp://localhost:1883, clients=2, count=5, duration=200ms, throughput=''
       @ f 10 200 @ ''messages/sec\<newline>''"
    unfolding summary_line_def d t r by (simp add: sample_opts_simps show_int_samples)
  have c: "\<forall>j. 0 \<le> j \<and> j < ClientNum sample_opts
             \<longrightarrow> \<not> failed (connect_token (slow_world f) j)"
    by (simp add: slow_world_def quiet_world_def failed_def ok_token_def)
  have "\<not> makeslice_panics 8 (ClientNum sample_opts)"
    by (simp add: sample_opts_simps make_accepts)
  from Execute_workers [OF this c, of Pub]
  have "\<exists>pre ws post. Execute (slow_world f) PublishAllClient sample_opts =
          Reported pre ws post (summary_line (slow_world f) sample_opts)"
    by auto
  with e t d show ?thesis unfolding s by blast
qed

section \<open>Topics\<close>

text \<open>
  On valid code points the embedding is faithful: the UTF-8 encodings form a prefix code,
  so the two indices can be read back from the topic.
\<close>

lemma split_base64:
  fixes r :: nat
  shows "r = r div 0x1000 * 0x1000 + r div 0x40 mod 0x40 * 0x40 + r mod 0x40"
    and "r = r div 0x40000 * 0x40000 + r div 0x1000 mod 0x40 * 0x1000 + r div 0x40 mod 0x40 * 0x40
               + r mod 0x40"
proof -
  define q1 where "q1 = r div 0x40"
  define q2 where "q2 = q1 div 0x40"
  define q3 where "q3 = q2 div 0x40"
  define d0 where "d0 = r mod 0x40"
  define d1 where "d1 = q1 mod 0x40"
  define d2 where "d2 = q2 mod 0x40"
  have e2: "r div 0x1000 = q2"
    using div_mult2_eq [of r "0x40" "0x40"] by (simp add: q1_def q2_def)
  have e3: "r div 0x40000 = q3"
    using div_mult2_eq [of r "0x1000" "0x40"] by (simp add: e2 q3_def)
  have r0: "r = q1 * 0x40 + d0"
    unfolding q1_def d0_def by (rule div_mult_mod_eq [symmetric])
  have r1: "q1 = q2 * 0x40 + d1"
    unfolding q2_def d1_def by (rule div_mult_mod_eq [symmetric])
  have r2: "q2 = q3 * 0x40 + d2"
    unfolding q3_def d2_def by (rule div_mult_mod_eq [symmetric])
  have "r = q2 * 0x1000 + d1 * 0x40 + d0"
    using r0 r1 by linarith
  then show "r = r div 0x1000 * 0x1000 + r div 0x40 mod 0x40 * 0x40 + r mod 0x40"
    unfolding e2 by (simp only: q1_def d1_def d0_def)
  have "r = q3 * 0x40000 + d2 * 0x1000 + d1 * 0x40 + d0"
    using r0 r1 r2 by linarith
  then show "r = r div 0x40000 * 0x40000 + r div 0x1000 mod 0x40 * 0x1000 + r div 0x40 mod 0x40 * 0x40
               + r mod 0x40"
    unfolding e3 by (simp only: flip: e2) (simp only: q1_def d2_def d1_def d0_def e2 flip: q2_def)
qed

lemma utf8_encode_cases:
  assumes "r < 0x200000"
  obtains
    (one) "r < 0x80" "utf8_encode r = [char_of r]"
  | (two) b0 b1 where "0x80 \<le> r" "r < 0x800" "utf8_encode r = [char_of (0xC0 + b0), char_of (0x80 + b1)]"
      "b0 < 0x20" "b1 < 0x40" "r = b0 * 0x40 + b1"
  | (three) b0 b1 b2 where "0x800 \<le> r" "r < 0x10000"
      "utf8_encode r = [char_of (0xE0 + b0), char_of (0x80 + b1), char_of (0x80 + b2)]"
      "b0 < 0x10" "b1 < 0x40" "b2 < 0x40" "r = b0 * 0x1000 + b1 * 0x40 + b2"
  | (four) b0 b1 b2 b3 where "0x10000 \<le> r"
      "utf8_encode r = [char_of (0xF0 + b0), char_of (0x80 + b1), char_of (0x80 + b2), char_of (0x80 + b3)]"
      "b0 < 0x8" "b1 < 0x40" "b2 < 0x40" "b3 < 0x40" "r = b0 * 0x40000 + b1 * 0x1000 + b2 * 0x40 + b3"
proof -
  consider "r < 0x80" | "0x80 \<le> r \<and> r < 0x800" | "0x800 \<le> r \<and> r < 0x10000" | "0x10000 \<le> r"
    by linarith
  then show ?thesis
  proof cases
    case 1
    then show ?thesis by (intro one) (simp_all add: utf8_encode_def)
  next
    case 2
    show ?thesis
    proof (rule two [of "r div 0x40" "r mod 0x40"])
      show "utf8_encode r = [char_of (0xC0 + r div 0x40), char_of (0x80 + r mod 0x40)]"
        using 2 by (simp add: utf8_encode_def)
      have "r < 0x20 * 0x40" using 2 by simp
      then show "r div 0x40 < 0x20" by (rule less_mult_imp_div_less)
    qed (use 2 in simp_all)
  next
    case 3
    show ?thesis
    proof (rule three [of "r div 0x1000" "r div 0x40 mod 0x40" "r mod 0x40"])
      show "utf8_encode r = [char_of (0xE0 + r div 0x1000), char_of (0x80 + r div 0x40 mod 0x40),
                             char_of (0x80 + r mod 0x40)]"
        using 3 by (simp add: utf8_encode_def)
      show "r = r div 0x1000 * 0x1000 + r div 0x40 mod 0x40 * 0x40 + r mod 0x40"
        by (rule split_base64)
      have "r < 0x10 * 0x1000" using 3 by simp
      then show "r div 0x1000 < 0x10" by (rule less_mult_imp_div_less)
    qed (use 3 in simp_all)
  next
    case 4
    show ?thesis
    proof (rule four [of "r div 0x40000" "r div 0x1000 mod 0x40" "r div 0x40 mod 0x40" "r mod 0x40"])
      show "utf8_encode r = [char_of (0xF0 + r div 0x40000), char_of (0x80 + r div 0x1000 mod 0x40),
                             char_of (0x80 + r div 0x40 mod 0x40), char_of (0x80 + r mod 0x40)]"
        using 4 by (simp add: utf8_encode_def)
      show "r = r div 0x40000 * 0x40000 + r div 0x1000 mod 0x40 * 0x1000 + r div 0x40 mod 0x40 * 0x40
                  + r mod 0x40"
        by (rule split_base64)
      have "r < 0x8 * 0x40000" using assms by simp
      then show "r div 0x40000 < 0x8" by (rule less_mult_imp_div_less)
    qed (use 4 in simp_all)
  qed
qed

lemma utf8_decode_encode:
  assumes "r < 0x200000"
  shows "utf8_decode (utf8_encode r @ xs) = (r, xs)"
  using assms
proof (cases r rule: utf8_encode_cases)
  case one
  then show ?thesis by (simp add: utf8_decode_def)
next
  case (two b0 b1)
  then show ?thesis by (simp add: utf8_decode_def Let_def)
next
  case (three b0 b1 b2)
  then show ?thesis by (simp add: utf8_decode_def Let_def)
next
  case (four b0 b1 b2 b3)
  then show ?thesis by (simp add: utf8_decode_def Let_def)
qed

lemma utf8_encode_prefix_code:
  assumes "r < 0x200000" "r' < 0x200000" "utf8_encode r @ xs = utf8_encode r' @ ys"
  shows "r = r' \<and> xs = ys"
proof -
  have "utf8_decode (utf8_encode r @ xs) = utf8_decode (utf8_encode r' @ ys)"
    using assms(3) by simp
  then show ?thesis
    by (simp only: utf8_decode_encode [OF assms(1)] utf8_decode_encode [OF assms(2)] prod.inject)
qed

lemma string_of_rune_valid: "valid_rune i \<Longrightarrow> string_of_rune i = utf8_encode (nat i)"
  by (auto simp: valid_rune_def string_of_rune_def)

lemma valid_rune_bound: "valid_rune i \<Longrightarrow> nat i < 0x200000"
  unfolding valid_rune_def by linarith

lemma topic_injective_on_valid_runes:
  assumes "valid_rune a" "valid_rune b" "valid_rune a'" "valid_rune b'"
    and "topic a b = topic a' b'"
  shows "a = a' \<and> b = b'"
proof -
  have "utf8_encode (nat a) @ (''/'' @ utf8_encode (nat b))
          = utf8_encode (nat a') @ (''/'' @ utf8_encode (nat b'))"
    using assms by (simp add: topic_def string_of_rune_valid)
  from utf8_encode_prefix_code [OF valid_rune_bound [OF assms(1)] valid_rune_bound [OF assms(3)] this]
  have a: "nat a = nat a'" and "utf8_encode (nat b) @ [] = utf8_encode (nat b') @ []"
    by simp_all
  from utf8_encode_prefix_code [OF valid_rune_bound [OF assms(2)] valid_rune_bound [OF assms(4)] this(2)]
  have b: "nat b = nat b'" by simp
  from a b assms(1-4) show ?thesis unfolding valid_rune_def by linarith
qed

text \<open>
  Claim C5 states that distinct pairs of client index and iteration give distinct topics.
  The indices are embedded by \<open>string(id)\<close> and \<open>string(index)\<close>, which map every integer
  that is not a valid code point to U+FFFD: with one client and a count of 55298, the
  iterations 55296 and 55297 (the surrogates U+D800 and U+D801) of client 0 share a topic.
\<close>

theorem topic_collision:
  "topic 0 55296 = topic 0 55297
   \<and> topic 0 55296 = ''/go-mqtt/benchmark/'' @ [CHR 0x00] @ ''/'' @ [CHR 0xEF, CHR 0xBF, CHR 0xBD]"
  by (simp add: topic_def string_of_rune_def utf8_encode_def char_of_eq_iff)

section \<open>Options reaching the driver\<close>

lemma lax_run:
  "Execute w (exec_of a) lax_opts = Reported [Slept 3] [] [] (summary_line w lax_opts)"
proof -
  have n: "\<not> makeslice_panics 8 (ClientNum lax_opts)"
    by (simp add: lax_opts_def make_accepts)
  have c: "\<forall>j. 0 \<le> j \<and> j < ClientNum lax_opts \<longrightarrow> \<not> failed (connect_token w j)"
    by (auto simp: lax_opts_def)
  have z: "ClientNum lax_opts = 0" by (simp add: lax_opts_def)
  show ?thesis
    using Execute_workers [OF n c, of a] by (simp add: z connected_handles_0 enumerate_simps)
qed

text \<open>
  Claim C9 as stated fails: \<open>main\<close> checks the broker and the action only. The command line
  \<open>-broker=tcp://localhost:1883 -action=p -clients=0 -count=-1 -size=-1 -qos=3\<close> reaches
  \<open>Execute\<close> with a client count of 0, a count and a size of -1 and a QoS of 3, and
  \<open>Execute\<close> runs them to the report.
\<close>

theorem unvalidated_options_reach_driver:
  "main quiet_world lax_cmdline =
     Executed Pub lax_opts (Reported [Slept 3] [] [] (summary_line quiet_world lax_opts))
   \<and> \<not> validated lax_opts"
proof -
  have "main quiet_world lax_cmdline = Executed Pub lax_opts (Execute quiet_world (exec_of Pub) lax_opts)"
    by (simp add: main_def lax_cmdline_def lax_opts_def method_of_def byte_of_int_def Let_def)
  moreover have "\<not> validated lax_opts"
    by (simp add: validated_def lax_opts_def)
  ultimately show ?thesis
    by (simp only: lax_run) simp
qed

text \<open>
  Claim C9 (as amended). Before the driver runs, only the broker and the action are
  validated. \<open>main\<close> prints the usage when there is no argument, rejects an empty or
  placeholder broker and an unrecognised action with a diagnostic, and in every other case
  calls \<open>Execute\<close> with the client count, the count and the size exactly as the flags give
  them, whatever their sign, and with the QoS flag truncated to a byte. The driver does not
  validate them either: whenever the client array can be made and every connection
  succeeds it runs to the report, for any count, size and QoS.
\<close>

theorem main_checks_broker_and_action_only:
  "(main w cl = Usage \<longleftrightarrow> length (os_Args cl) \<le> 1)
   \<and> (main w cl = Invalid msg \<longleftrightarrow>
        1 < length (os_Args cl)
        \<and> ((broker_flag cl = [] \<or> broker_flag cl = ''tcp://{host}:{port}'')
             \<and> msg = ''Invalid argument : -broker -> '' @ broker_flag cl @ ''\<newline>''
           \<or> broker_flag cl \<noteq> [] \<and> broker_flag cl \<noteq> ''tcp://{host}:{port}''
             \<and> action_flag cl \<notin> {''p'', ''pub'', ''publish'', ''s'', ''sub'', ''subscribe''}
             \<and> msg = ''Invalid argument : -action -> '' @ action_flag cl @ ''\<newline>''))
   \<and> (main w cl = Executed a opts out \<longleftrightarrow>
        1 < length (os_Args cl)
        \<and> broker_flag cl \<noteq> [] \<and> broker_flag cl \<noteq> ''tcp://{host}:{port}''
        \<and> (a = Pub \<and> action_flag cl \<in> {''p'', ''pub'', ''publish''}
             \<or> a = Sub \<and> action_flag cl \<in> {''s'', ''sub'', ''subscribe''})
        \<and> opts = \<lparr>Broker = broker_flag cl, ClientNum = clients_flag cl, Count = count_flag cl,
                    MessageSize = size_flag cl, Qos = byte_of_int (qos_flag cl)\<rparr>
        \<and> out = Execute w (exec_of a) opts)
   \<and> (\<not> makeslice_panics 8 (ClientNum dopts) \<and> (\<forall>i. \<not> failed (connect_token w i))
        \<longrightarrow> (\<exists>pre ws post line. Execute w (exec_of da) dopts = Reported pre ws post line))"
proof -
  have u: "main w cl = Usage \<longleftrightarrow> length (os_Args cl) \<le> 1"
    by (simp add: main_def Let_def split: option.splits)
  have v: "main w cl = Invalid msg \<longleftrightarrow>
        1 < length (os_Args cl)
        \<and> ((broker_flag cl = [] \<or> broker_flag cl = ''tcp://{host}:{port}'')
             \<and> msg = ''Invalid argument : -broker -> '' @ broker_flag cl @ ''\<newline>''
           \<or> broker_flag cl \<noteq> [] \<and> broker_flag cl \<noteq> ''tcp://{host}:{port}''
             \<and> action_flag cl \<notin> {''p'', ''pub'', ''publish'', ''s'', ''sub'', ''subscribe''}
             \<and> msg = ''Invalid argument : -action -> '' @ action_flag cl @ ''\<newline>'')"
    by (auto simp: main_def method_of_def Let_def split: option.splits if_splits)
  have e: "main w cl = Executed a opts out \<longleftrightarrow>
        1 < length (os_Args cl)
        \<and> broker_flag cl \<noteq> [] \<and> broker_flag cl \<noteq> ''tcp://{host}:{port}''
        \<and> (a = Pub \<and> action_flag cl \<in> {''p'', ''pub'', ''publish''}
             \<or> a = Sub \<and> action_flag cl \<in> {''s'', ''sub'', ''subscribe''})
        \<and> opts = \<lparr>Broker = broker_flag cl, ClientNum = clients_flag cl, Count = count_flag cl,
                    MessageSize = size_flag cl, Qos = byte_of_int (qos_flag cl)\<rparr>
        \<and> out = Execute w (exec_of a) opts"
    by (auto simp: main_def method_of_def Let_def split: option.splits if_splits)
  have r: "\<exists>pre ws post line. Execute w (exec_of da) dopts = Reported pre ws post line"
    if "\<not> makeslice_panics 8 (ClientNum dopts)" "\<forall>i. \<not> failed (connect_token w i)"
  proof -
    have c: "\<forall>j. 0 \<le> j \<and> j < ClientNum dopts \<longrightarrow> \<not> failed (connect_token w j)"
      using that(2) by simp
    from Execute_workers [OF that(1) c, of da] show ?thesis by blast
  qed
  from u v e r show ?thesis by blast
qed

theorem main_checks_broker_and_action_only_witness:
  "main quiet_world lax_cmdline = Executed Pub lax_opts (Execute quiet_world (exec_of Pub) lax_opts)
   \<and> main quiet_world (lax_cmdline\<lparr>action_flag := ''foo''\<rparr>)
       = Invalid ''Invalid argument : -action -> foo\<newline>''
   \<and> main quiet_world (lax_cmdline\<lparr>broker_flag := ''tcp://{host}:{port}''\<rparr>)
       = Invalid ''Invalid argument : -broker -> tcp://{host}:{port}\<newline>''
   \<and> main quiet_world (lax_cmdline\<lparr>os_Args := [''mqtt-bench'']\<rparr>) = Usage
   \<and> \<not> makeslice_panics 8 (ClientNum lax_opts)
   \<and> (\<forall>i. \<not> failed (connect_token quiet_world i))
   \<and> (\<exists>pre ws post line.
          Execute quiet_world (exec_of Pub) lax_opts = Reported pre ws post line)"
proof -
  note T = main_checks_broker_and_action_only
  have a: "main quiet_world lax_cmdline = Executed Pub lax_opts (Execute quiet_world (exec_of Pub) lax_opts)"
    using T [of quiet_world lax_cmdline undefined Pub lax_opts "Execute quiet_world (exec_of Pub) lax_opts"]
    by (simp add: lax_cmdline_def lax_opts_def byte_of_int_def)
  have b: "main quiet_world (lax_cmdline\<lparr>action_flag := ''foo''\<rparr>)
       = Invalid ''Invalid argument : -action -> foo\<newline>''"
    using T [of quiet_world "lax_cmdline\<lparr>action_flag := ''foo''\<rparr>"
               "''Invalid argument : -action -> foo\<newline>''"]
    by (simp add: lax_cmdline_def)
  have c: "main quiet_world (lax_cmdline\<lparr>broker_flag := ''tcp://{host}:{port}''\<rparr>)
       = Invalid ''Invalid argument : -broker -> tcp://{host}:{port}\<newline>''"
    using T [of quiet_world "lax_cmdline\<lparr>broker_flag := ''tcp://{host}:{port}''\<rparr>"
               "''Invalid argument : -broker -> tcp://{host}:{port}\<newline>''"]
    by (simp add: lax_cmdline_def)
  have d: "main quiet_world (lax_cmdline\<lparr>os_Args := [''mqtt-bench'']\<rparr>) = Usage"
    using T [of quiet_world "lax_cmdline\<lparr>os_Args := [''mqtt-bench'']\<rparr>"]
    by simp
  have n: "\<not> makeslice_panics 8 (ClientNum lax_opts)"
    by (simp add: lax_opts_def make_accepts)
  have q: "\<forall>i. \<not> failed (connect_token quiet_world i)"
    by (simp add: quiet_connects)
  have r: "\<exists>pre ws post line.
          Execute quiet_world (exec_of Pub) lax_opts = Reported pre ws post line"
    using T [of quiet_world _ _ _ _ _ lax_opts Pub] n q by blast
  from a b c d n q r show ?thesis by blast
qed

end
